theory Spec2Isabelle
  imports Main "HOL-Library.Sublist"
begin

section \<open>Kaos\_AugmentRequirements: tag matching and the augment lifecycle\<close>

text \<open>
  A shallow embedding of \<^verbatim>\<open>src/Kaos_AugmentRequirements.js\<close>. JavaScript strings are
  modelled as \<^typ>\<open>string\<close> over the ASCII alphabet: the terms of a notetag are matched by
  \<^verbatim>\<open>/\w+/\<close>, which is ASCII only. Every function that can throw returns
  \<^verbatim>\<open>error + 'a\<close>, the error on the left.
\<close>

subsection \<open>Strings\<close>

definition toUpperChar :: "char \<Rightarrow> char" where
  "toUpperChar c =
     (let n = (of_char c :: nat) in if 97 \<le> n \<and> n \<le> 122 then char_of (n - 32) else c)"

text \<open>\<^verbatim>\<open>String.prototype.toUpperCase\<close>, on ASCII.\<close>

definition toUpperCase :: "string \<Rightarrow> string" where
  "toUpperCase s = map toUpperChar s"

text \<open>\<^verbatim>\<open>s.charAt(0) == "*"\<close> and \<^verbatim>\<open>s.charAt(s.length-1) == "*"\<close>: \<^verbatim>\<open>charAt\<close> of an
  empty string is the empty string, which is not the star.\<close>

definition firstIsStar :: "string \<Rightarrow> bool" where
  "firstIsStar s = (case s of [] \<Rightarrow> False | c # _ \<Rightarrow> c = CHR ''*'')"

definition lastIsStar :: "string \<Rightarrow> bool" where
  "lastIsStar s = (case rev s of [] \<Rightarrow> False | c # _ \<Rightarrow> c = CHR ''*'')"

text \<open>\<^verbatim>\<open>s.replace("*", r)\<close> with a string pattern: only the first star is replaced.\<close>

fun replaceStar :: "string \<Rightarrow> string \<Rightarrow> string" where
  "replaceStar [] r = []"
| "replaceStar (c # cs) r = (if c = CHR ''*'' then r @ cs else c # replaceStar cs r)"

subsection \<open>The fragment of regular expressions the plugin builds\<close>

text \<open>
  The plugin hands a string to \<^verbatim>\<open>new RegExp(regex, "i")\<close> and asks whether \<^verbatim>\<open>exec\<close> finds a
  match. The sources it builds are an optional \<^verbatim>\<open>^\<close>, then literal characters and the
  token \<^verbatim>\<open>\w*\<close>, then an optional \<^verbatim>\<open>$\<close>. That fragment is interpreted here; a source
  with any other use of a metacharacter is reported as \<open>RegExpOutsideFragment\<close>, which
  is a limit of the model and not a behaviour of the program. \<open>TypeError\<close> is the
  JavaScript exception of reading a property of \<^verbatim>\<open>null\<close> or \<^verbatim>\<open>undefined\<close>.
\<close>

datatype error = TypeError | RegExpOutsideFragment

datatype atom = Lit char | WordStar

definition metaChar :: "char \<Rightarrow> bool" where
  "metaChar c = (c \<in> set ''^$.*+?()[]{}|'' \<or> c = CHR 0x5C \<or> 128 \<le> (of_char c :: nat))"

text \<open>\<^verbatim>\<open>\w\<close>: a letter, a digit or the underscore.\<close>

definition wordChar :: "char \<Rightarrow> bool" where
  "wordChar c =
     (let n = (of_char c :: nat) in
      (48 \<le> n \<and> n \<le> 57) \<or> (65 \<le> n \<and> n \<le> 90) \<or> n = 95 \<or> (97 \<le> n \<and> n \<le> 122))"

text \<open>The body of a source, after a leading \<^verbatim>\<open>^\<close> has been taken off: its atoms, and
  whether it ends with the anchor \<^verbatim>\<open>$\<close>.\<close>

fun parseBody :: "string \<Rightarrow> (atom list \<times> bool) option" where
  "parseBody [] = Some ([], False)"
| "parseBody (c # cs) =
     (if c = CHR ''$'' \<and> cs = [] then Some ([], True)
      else if c = CHR 0x5C then
        (case cs of
           w # s # rest \<Rightarrow>
             if w = CHR ''w'' \<and> s = CHR ''*''
             then map_option (\<lambda>(as, e). (WordStar # as, e)) (parseBody rest)
             else None
         | _ \<Rightarrow> None)
      else if metaChar c then None
      else map_option (\<lambda>(as, e). (Lit c # as, e)) (parseBody cs))"

record regexp =
  anchoredStart :: bool
  atoms :: "atom list"
  anchoredEnd :: bool

definition compile :: "string \<Rightarrow> regexp option" where
  "compile src =
     (case src of
        [] \<Rightarrow> Some \<lparr>anchoredStart = False, atoms = [], anchoredEnd = False\<rparr>
      | c # cs \<Rightarrow>
          if c = CHR ''^''
          then map_option (\<lambda>(as, e). \<lparr>anchoredStart = True, atoms = as, anchoredEnd = e\<rparr>)
                 (parseBody cs)
          else map_option (\<lambda>(as, e). \<lparr>anchoredStart = False, atoms = as, anchoredEnd = e\<rparr>)
                 (parseBody src))"

text \<open>A match of the atoms at the start of the subject. With the flag \<^verbatim>\<open>i\<close> a literal is
  compared after both characters are canonicalised, which on ASCII is upper-casing.\<close>

fun matchHere :: "atom list \<Rightarrow> bool \<Rightarrow> string \<Rightarrow> bool" where
  "matchHere [] e s = (if e then s = [] else True)"
| "matchHere (Lit c # as) e [] = False"
| "matchHere (Lit c # as) e (x # xs) = (toUpperChar x = toUpperChar c \<and> matchHere as e xs)"
| "matchHere (WordStar # as) e [] = matchHere as e []"
| "matchHere (WordStar # as) e (x # xs) =
     ((wordChar x \<and> matchHere (WordStar # as) e xs) \<or> matchHere as e (x # xs))"

text \<open>Without \<^verbatim>\<open>^\<close> the match may start at any position of the subject.\<close>

fun matchAnywhere :: "atom list \<Rightarrow> bool \<Rightarrow> string \<Rightarrow> bool" where
  "matchAnywhere as e [] = matchHere as e []"
| "matchAnywhere as e (x # xs) = (matchHere as e (x # xs) \<or> matchAnywhere as e xs)"

text \<open>\<^verbatim>\<open>exp.exec(s) !== null\<close>.\<close>

definition exec :: "regexp \<Rightarrow> string \<Rightarrow> bool" where
  "exec r s =
     (if anchoredStart r then matchHere (atoms r) (anchoredEnd r) s
      else matchAnywhere (atoms r) (anchoredEnd r) s)"

subsection \<open>The matcher shared by the tag, requirement and grant lookups\<close>

text \<open>Lines 503--512 (and 308--317, 329--338, 529--538): the source of the regular
  expression, from the upper-cased tag.\<close>

definition backslash_w_star :: string where
  "backslash_w_star = [CHR 0x5C, CHR ''w'', CHR ''*'']"

definition tagRegex :: "string \<Rightarrow> string" where
  "tagRegex tag =
     (if CHR ''*'' \<in> set tag then
        (if firstIsStar tag then replaceStar tag [] @ ''$''
         else if lastIsStar tag then ''^'' @ replaceStar tag []
         else ''^'' @ replaceStar tag backslash_w_star @ ''$'')
      else ''^'' @ tag @ ''$'')"

text \<open>One turn of the loop body: the pattern is upper-cased, the expression is built and
  run on the upper-cased candidate.\<close>

definition matchesTag :: "string \<Rightarrow> string \<Rightarrow> error + bool" where
  "matchesTag tag current =
     (case compile (tagRegex (toUpperCase tag)) of
        None \<Rightarrow> Inl RegExpOutsideFragment
      | Some r \<Rightarrow> Inr (exec r (toUpperCase current)))"

text \<open>\<^verbatim>\<open>Kaos.Augment.baseHasReqs\<close> (lines 305--324): true at the first candidate that
  matches.\<close>

fun baseHasReqs :: "string \<Rightarrow> string list \<Rightarrow> error + bool" where
  "baseHasReqs req [] = Inr False"
| "baseHasReqs req (current # rest) =
     (case matchesTag req current of
        Inl err \<Rightarrow> Inl err
      | Inr m \<Rightarrow> if m then Inr True else baseHasReqs (toUpperCase req) rest)"

text \<open>A JavaScript value that is a boolean or a number, and its truthiness.\<close>

datatype js_value = Boolean bool | Number nat

fun truthy :: "js_value \<Rightarrow> bool" where
  "truthy (Boolean b) = b"
| "truthy (Number n) = (n \<noteq> 0)"

text \<open>The loop of \<^verbatim>\<open>hasTag\<close> and \<^verbatim>\<open>hasGrant\<close> (lines 501--519, 527--545): \<open>t\<close> is the loop
  counter, the pair is \<^verbatim>\<open>(index, itemHasTag)\<close>.\<close>

fun lookupLoop :: "string list \<Rightarrow> nat \<Rightarrow> string \<Rightarrow> nat \<times> bool \<Rightarrow> error + (nat \<times> bool)" where
  "lookupLoop [] t tag acc = Inr acc"
| "lookupLoop (current # rest) t tag acc =
     (case matchesTag tag current of
        Inl err \<Rightarrow> Inl err
      | Inr m \<Rightarrow> lookupLoop rest (Suc t) (toUpperCase tag) (if m then (t, True) else acc))"

definition lookup :: "string list \<Rightarrow> string \<Rightarrow> bool \<Rightarrow> error + js_value" where
  "lookup candidates tag returnIndex =
     (case lookupLoop candidates 0 tag (0, False) of
        Inl err \<Rightarrow> Inl err
      | Inr (index, itemHasTag) \<Rightarrow>
          Inr (if itemHasTag \<and> returnIndex then Number index else Boolean itemHasTag))"

subsection \<open>Items\<close>

text \<open>
  An entry of \<^verbatim>\<open>$dataItems\<close> with the fields the plugin adds in \<^verbatim>\<open>processNotetags\<close>, and
  a host item with the fields of the two prerequisite plugins. An entry of
  \<^verbatim>\<open>augmentSlotItems\<close> is the string \<^verbatim>\<open>'none'\<close> or a string that holds the identifier of
  the installed item (\<^verbatim>\<open>otherAugment.match(/\d+/)\<close> reads it back, line 570); the model
  keeps the identifier itself.
\<close>

record augment =
  item_id :: nat
  augmentRequirements :: "string list"
  augmentGrantedTags :: "string list"
  augmentRejectionString :: string

datatype slot = SlotNone | SlotItem nat

record host =
  tags :: "string list"
  augmentSlots :: "string list"
  augmentSlotItems :: "slot list"

type_synonym dataItems = "nat \<Rightarrow> augment option"

text \<open>\<^verbatim>\<open>Kaos.Augment.hasTag\<close> (lines 497--521) and \<^verbatim>\<open>Kaos.Augment.hasGrant\<close>
  (lines 523--547).\<close>

definition hasTag :: "host \<Rightarrow> string \<Rightarrow> bool \<Rightarrow> error + js_value" where
  "hasTag item tag returnIndex = lookup (tags item) tag returnIndex"

definition hasGrant :: "augment \<Rightarrow> string \<Rightarrow> bool \<Rightarrow> error + js_value" where
  "hasGrant item grant returnIndex = lookup (augmentGrantedTags item) grant returnIndex"

subsection \<open>Adding and removing tags\<close>

text \<open>\<^verbatim>\<open>Array.prototype.indexOf\<close>: the first position of the value, or \<open>-1\<close>.\<close>

fun indexOf :: "string list \<Rightarrow> string \<Rightarrow> int" where
  "indexOf [] x = - 1"
| "indexOf (y # ys) x =
     (if y = x then 0 else (let i = indexOf ys x in if i < 0 then - 1 else i + 1))"

text \<open>\<^verbatim>\<open>xs.splice(index, 1)\<close>.\<close>

definition splice1 :: "'a list \<Rightarrow> nat \<Rightarrow> 'a list" where
  "splice1 xs index = take index xs @ drop (Suc index) xs"

text \<open>\<^verbatim>\<open>Kaos.Augment.removeTag\<close> (lines 559--562).\<close>

definition removeTag :: "host \<Rightarrow> string \<Rightarrow> host" where
  "removeTag item tag =
     (let index = indexOf (tags item) (toUpperCase tag) in
      if index > - 1 then item\<lparr>tags := splice1 (tags item) (nat index)\<rparr> else item)"

text \<open>\<^verbatim>\<open>Kaos.Augment.addTag\<close> (lines 549--552).\<close>

definition addTag :: "host \<Rightarrow> string \<Rightarrow> host" where
  "addTag item tag =
     (let item1 = removeTag item (toUpperCase tag) in
      item1\<lparr>tags := tags item1 @ [toUpperCase tag]\<rparr>)"



text \<open>\<^verbatim>\<open>Kaos.Augment.addGrantedTags\<close> (lines 554--557): the loop over the grants.\<close>

fun addGrantedTagsLoop :: "string list \<Rightarrow> host \<Rightarrow> host" where
  "addGrantedTagsLoop [] item = item"
| "addGrantedTagsLoop (g # gs) item = addGrantedTagsLoop gs (addTag item (''aug_'' @ g))"

definition addGrantedTags :: "host \<Rightarrow> augment \<Rightarrow> host" where
  "addGrantedTags item augment = addGrantedTagsLoop (augmentGrantedTags augment) item"

text \<open>
  \<^verbatim>\<open>Kaos.Augment.removeGrantedTags\<close> (lines 564--577). The inner loop runs over the slots
  and carries the flag \<^verbatim>\<open>removeTag\<close>; the outer loop runs over the grants and carries
  the item and the same flag, which line 565 sets once, before both loops. A \<^verbatim>\<open>null\<close>
  augment, and an identifier with no entry in \<^verbatim>\<open>$dataItems\<close>, make the property read
  throw.
\<close>

fun slotsLoop :: "dataItems \<Rightarrow> slot list \<Rightarrow> nat \<Rightarrow> string \<Rightarrow> bool \<Rightarrow> error + bool" where
  "slotsLoop db [] aid grant removeFlag = Inr removeFlag"
| "slotsLoop db (SlotNone # rest) aid grant removeFlag = slotsLoop db rest aid grant removeFlag"
| "slotsLoop db (SlotItem n # rest) aid grant removeFlag =
     (if n \<noteq> aid then
        (case db n of
           None \<Rightarrow> Inl TypeError
         | Some otherAugment \<Rightarrow>
             (case hasGrant otherAugment grant False of
                Inl err \<Rightarrow> Inl err
              | Inr v \<Rightarrow> slotsLoop db rest aid grant (if truthy v then False else removeFlag)))
      else slotsLoop db rest aid grant removeFlag)"

fun grantsLoop :: "dataItems \<Rightarrow> augment \<Rightarrow> string list \<Rightarrow> host \<Rightarrow> bool \<Rightarrow> error + host" where
  "grantsLoop db augment [] item removeFlag = Inr item"
| "grantsLoop db augment (grant # gs) item removeFlag =
     (case slotsLoop db (augmentSlotItems item) (item_id augment) grant removeFlag of
        Inl err \<Rightarrow> Inl err
      | Inr flag \<Rightarrow>
          grantsLoop db augment gs
            (if flag then removeTag item (''aug_'' @ grant) else item) flag)"

definition removeGrantedTags :: "dataItems \<Rightarrow> host \<Rightarrow> augment option \<Rightarrow> error + host" where
  "removeGrantedTags db item augment =
     (case augment of
        None \<Rightarrow> Inl TypeError
      | Some a \<Rightarrow> grantsLoop db a (augmentGrantedTags a) item True)"

subsection \<open>Requirement evaluation\<close>

text \<open>\<^verbatim>\<open>Kaos.Augment.checkRequirements\<close> (lines 579--593): the inner loop over the host's
  tags carries \<^verbatim>\<open>okToInstall\<close>; the outer loop returns at the first requirement that
  leaves it false.\<close>

fun tagsLoop :: "string \<Rightarrow> string list \<Rightarrow> bool \<Rightarrow> bool" where
  "tagsLoop requirement [] okToInstall = okToInstall"
| "tagsLoop requirement (t # ts) okToInstall =
     tagsLoop requirement ts (if requirement = t then True else okToInstall)"

fun requirementsLoop :: "string list \<Rightarrow> string list \<Rightarrow> bool" where
  "requirementsLoop [] ts = True"
| "requirementsLoop (r # rs) ts =
     (if \<not> tagsLoop r ts False then False else requirementsLoop rs ts)"

definition checkRequirements :: "augment \<Rightarrow> host \<Rightarrow> bool" where
  "checkRequirements augment item = requirementsLoop (augmentRequirements augment) (tags item)"

subsection \<open>Collaborators: the slot plugin, the inventory and the rejection window\<close>

text \<open>
  The state an install or a removal works on: the host item, the party's item counts and
  the rejection window of the customize scene (created at line 449; its fields are
  \<^verbatim>\<open>_text\<close> and the visibility that \<^verbatim>\<open>show\<close> sets).
\<close>

record window =
  contentsText :: string
  visible :: bool

record game =
  target :: host
  inventory :: "nat \<Rightarrow> int"
  rejectionWindow :: window

text \<open>Modelled from the spec: \<^verbatim>\<open>ItemManager.augmentInSlot\<close> belongs to the prerequisite
  slot plugin and is not in the sources. A slot holds the sentinel or a reference to the
  installed item's identifier; the call gives \<^verbatim>\<open>null\<close> for the sentinel (line 416 tests
  the result with \<^verbatim>\<open>!augment\<close>) and the entry of \<^verbatim>\<open>$dataItems\<close> otherwise. A slot number
  past the array reads a property of \<^verbatim>\<open>undefined\<close>.\<close>

definition augmentInSlot :: "dataItems \<Rightarrow> host \<Rightarrow> nat \<Rightarrow> error + augment option" where
  "augmentInSlot db item slotId =
     (if slotId < length (augmentSlotItems item) then
        (case augmentSlotItems item ! slotId of
           SlotNone \<Rightarrow> Inr None
         | SlotItem n \<Rightarrow> Inr (db n))
      else Inl TypeError)"

text \<open>Modelled from the spec: \<^verbatim>\<open>ItemManager.installAugmentToSlot\<close> of the slot plugin is
  not in the sources. It sets the slot to \<open>Occupied\<close> by the augment, or to \<open>Empty\<close>
  when it is handed no augment; the attach effects it runs change fields of the item
  that are outside this model.\<close>

definition ItemManager_installAugmentToSlot :: "host \<Rightarrow> augment option \<Rightarrow> nat \<Rightarrow> host" where
  "ItemManager_installAugmentToSlot item effectItem slotId =
     item\<lparr>augmentSlotItems := (augmentSlotItems item)
       [slotId := (case effectItem of None \<Rightarrow> SlotNone | Some e \<Rightarrow> SlotItem (item_id e))]\<rparr>"

text \<open>Modelled from the spec: \<^verbatim>\<open>$gameParty.gainItem(item, qty)\<close> and
  \<^verbatim>\<open>loseItem(item, qty)\<close> of the engine are not in the sources. They increment and
  decrement the quantity of the item; a \<^verbatim>\<open>null\<close> item has no container and nothing
  changes.\<close>

definition gainItem :: "(nat \<Rightarrow> int) \<Rightarrow> augment option \<Rightarrow> int \<Rightarrow> (nat \<Rightarrow> int)" where
  "gainItem counts item amount =
     (case item of None \<Rightarrow> counts | Some a \<Rightarrow> counts(item_id a := counts (item_id a) + amount))"

definition loseItem :: "(nat \<Rightarrow> int) \<Rightarrow> augment option \<Rightarrow> int \<Rightarrow> (nat \<Rightarrow> int)" where
  "loseItem counts item amount = gainItem counts item (- amount)"

text \<open>\<^verbatim>\<open>Window_AugmentRejection.prototype.setItem\<close> and \<^verbatim>\<open>setText\<close> (lines 480--493), then
  \<^verbatim>\<open>Kaos.Augment.showRejection\<close> (lines 595--598).\<close>

definition setItem :: "window \<Rightarrow> augment option \<Rightarrow> window" where
  "setItem w item =
     w\<lparr>contentsText := (case item of None \<Rightarrow> [] | Some a \<Rightarrow> augmentRejectionString a)\<rparr>"

definition showRejection :: "game \<Rightarrow> augment option \<Rightarrow> game" where
  "showRejection g augment =
     g\<lparr>rejectionWindow := (setItem (rejectionWindow g) augment)\<lparr>visible := True\<rparr>\<rparr>"

subsection \<open>Install and remove\<close>

text \<open>\<^verbatim>\<open>gain || 0\<close>, for an argument that may be left out.\<close>

definition orZero :: "int option \<Rightarrow> int" where
  "orZero gain = (case gain of None \<Rightarrow> 0 | Some n \<Rightarrow> n)"

text \<open>\<^verbatim>\<open>ItemManager.removeAugmentFromSlot\<close> as the plugin overrides it (lines 407--428):
  the granted tags are removed first, then the slot's type label is read, then the
  occupant is looked up and returned. The detach effects change fields outside this
  model. The slot entry itself is left as it is.\<close>

definition ItemManager_removeAugmentFromSlot ::
    "dataItems \<Rightarrow> host \<Rightarrow> nat \<Rightarrow> error + (host \<times> augment option)" where
  "ItemManager_removeAugmentFromSlot db item slotId =
     (case augmentInSlot db item slotId of
        Inl err \<Rightarrow> Inl err
      | Inr a \<Rightarrow>
          (case removeGrantedTags db item a of
             Inl err \<Rightarrow> Inl err
           | Inr item1 \<Rightarrow>
               if slotId < length (augmentSlots item1) then
                 (case augmentInSlot db item1 slotId of
                    Inl err \<Rightarrow> Inl err
                  | Inr augment \<Rightarrow> Inr (item1, augment))
               else Inl TypeError))"

text \<open>Lines 391--399 of \<^verbatim>\<open>ItemManager.applyAugmentEffects\<close>: a slot that is not
  \<^verbatim>\<open>'none'\<close> is emptied and its occupant returned to the party, then the new occupant
  is installed and taken from the party.\<close>

definition slotIsNone :: "host \<Rightarrow> nat \<Rightarrow> bool" where
  "slotIsNone item slotId =
     (slotId < length (augmentSlotItems item) \<and> augmentSlotItems item ! slotId = SlotNone)"

definition installBlock ::
    "dataItems \<Rightarrow> game \<Rightarrow> augment option \<Rightarrow> nat \<Rightarrow> int \<Rightarrow> error + game" where
  "installBlock db g effectItem slotId gain =
     (case (if slotIsNone (target g) slotId then Inr g
            else (case ItemManager_removeAugmentFromSlot db (target g) slotId of
                    Inl err \<Rightarrow> Inl err
                  | Inr (item1, augment) \<Rightarrow>
                      Inr (g\<lparr>target := item1,
                             inventory := gainItem (inventory g) augment gain\<rparr>))) of
        Inl err \<Rightarrow> Inl err
      | Inr g1 \<Rightarrow>
          Inr (g1\<lparr>target := ItemManager_installAugmentToSlot (target g1) effectItem slotId,
                  inventory := loseItem (inventory g1) effectItem gain\<rparr>))"

text \<open>\<^verbatim>\<open>ItemManager.applyAugmentEffects\<close> (lines 380--405). \<^verbatim>\<open>okToInstall\<close> stays
  \<^verbatim>\<open>undefined\<close>, which is falsy, when no augment is handed over. The host item is always
  present here, so the early return of line 381 has no branch; \<^verbatim>\<open>checkAugmentSlots\<close> and
  \<^verbatim>\<open>augmentRefreshParty\<close> of the slot plugin touch nothing this model holds.\<close>

definition applyAugmentEffects ::
    "dataItems \<Rightarrow> game \<Rightarrow> augment option \<Rightarrow> nat \<Rightarrow> int option \<Rightarrow> error + game" where
  "applyAugmentEffects db g effectItem slotId gain =
     (let okToInstall =
            (case effectItem of None \<Rightarrow> False | Some e \<Rightarrow> checkRequirements e (target g));
          g1 = (case effectItem of
                  None \<Rightarrow> g
                | Some e \<Rightarrow>
                    if okToInstall then g\<lparr>target := addGrantedTags (target g) e\<rparr> else g)
      in case (if okToInstall \<or> effectItem = None
               then installBlock db g1 effectItem slotId (orZero gain)
               else Inr g1) of
           Inl err \<Rightarrow> Inl err
         | Inr g2 \<Rightarrow> Inr (if okToInstall then g2 else showRejection g2 effectItem))"

text \<open>\<^verbatim>\<open>Kaos.Augment.installAugmentToSlot\<close> (lines 600--604).\<close>

definition Kaos_installAugmentToSlot ::
    "dataItems \<Rightarrow> game \<Rightarrow> augment option \<Rightarrow> nat \<Rightarrow> int option \<Rightarrow> error + game" where
  "Kaos_installAugmentToSlot db g effectItem slotId gain =
     (case applyAugmentEffects db g effectItem slotId (Some (orZero gain)) of
        Inl err \<Rightarrow> Inl err
      | Inr g1 \<Rightarrow> Inr (g1\<lparr>inventory := loseItem (inventory g1) effectItem 1\<rparr>))"

text \<open>\<^verbatim>\<open>Kaos.Augment.removeAugmentFromSlot\<close> (lines 606--613). \<^verbatim>\<open>gain || true\<close> is truthy
  whatever the argument, so one unit is always handed back.\<close>

definition Kaos_removeAugmentFromSlot ::
    "dataItems \<Rightarrow> game \<Rightarrow> nat \<Rightarrow> int option \<Rightarrow> error + (game \<times> augment option)" where
  "Kaos_removeAugmentFromSlot db g slotId gain =
     (case augmentInSlot db (target g) slotId of
        Inl err \<Rightarrow> Inl err
      | Inr a \<Rightarrow>
          (case removeGrantedTags db (target g) a of
             Inl err \<Rightarrow> Inl err
           | Inr item1 \<Rightarrow>
               (case ItemManager_removeAugmentFromSlot db item1 slotId of
                  Inl err \<Rightarrow> Inl err
                | Inr (item2, augment) \<Rightarrow>
                    Inr (g\<lparr>target := item2\<lparr>augmentSlotItems :=
                                       (augmentSlotItems item2)[slotId := SlotNone]\<rparr>,
                           inventory := gainItem (inventory g) augment 1\<rparr>,
                         augment))))"

subsection \<open>Sequences of operations and the tags the occupants grant\<close>

text \<open>The stored form of a granted tag: \<^verbatim>\<open>addTag\<close> is handed \<^verbatim>\<open>"aug_" + grant\<close> and stores
  it upper-cased.\<close>

definition namespaced :: "string \<Rightarrow> string" where
  "namespaced grant = toUpperCase (''aug_'' @ grant)"

text \<open>The namespaced tags that the augments now installed in the slots of the item
  grant.\<close>

definition installedGrants :: "dataItems \<Rightarrow> host \<Rightarrow> string list" where
  "installedGrants db item =
     concat (map (\<lambda>s. case s of
                         SlotNone \<Rightarrow> []
                       | SlotItem n \<Rightarrow>
                           (case db n of
                              None \<Rightarrow> []
                            | Some a \<Rightarrow> map namespaced (augmentGrantedTags a)))
                 (augmentSlotItems item))"

text \<open>An install is the call of \<^verbatim>\<open>ItemManager.applyAugmentEffects\<close> that the customize
  scene makes, with a gain of one; a removal is \<^verbatim>\<open>Kaos.Augment.removeAugmentFromSlot\<close>.\<close>

datatype operation = Install augment nat | Remove nat

fun run :: "dataItems \<Rightarrow> game \<Rightarrow> operation list \<Rightarrow> error + game" where
  "run db g [] = Inr g"
| "run db g (Install a slotId # ops) =
     (case applyAugmentEffects db g (Some a) slotId (Some 1) of
        Inl err \<Rightarrow> Inl err
      | Inr g1 \<Rightarrow> run db g1 ops)"
| "run db g (Remove slotId # ops) =
     (case Kaos_removeAugmentFromSlot db g slotId None of
        Inl err \<Rightarrow> Inl err
      | Inr (g1, _) \<Rightarrow> run db g1 ops)"

subsection \<open>Example items\<close>

text \<open>Four augments in the style of the plugin's help text, the item table that holds
  them, and a gun with two software slots in a given state.\<close>

definition ufmHack :: augment where
  "ufmHack = \<lparr>item_id = 1, augmentRequirements = [],
               augmentGrantedTags = [''ILLEGALUFM'', ''HACKED''],
               augmentRejectionString = ''Software Rejected!''\<rparr>"

definition ufmChip :: augment where
  "ufmChip = \<lparr>item_id = 2, augmentRequirements = [],
               augmentGrantedTags = [''ILLEGALUFM''],
               augmentRejectionString = ''Software Rejected!''\<rparr>"

definition autoHack :: augment where
  "autoHack = \<lparr>item_id = 3, augmentRequirements = [''CANFULLAUTO''],
                augmentGrantedTags = [''HACKED''],
                augmentRejectionString = ''Software Rejected!''\<rparr>"

definition autoHackMk2 :: augment where
  "autoHackMk2 = \<lparr>item_id = 4, augmentRequirements = [''CANFULLAUTO''],
                   augmentGrantedTags = [''HACKED''],
                   augmentRejectionString = ''Software Rejected!''\<rparr>"

definition exampleItems :: dataItems where
  "exampleItems = [1 \<mapsto> ufmHack, 2 \<mapsto> ufmChip, 3 \<mapsto> autoHack, 4 \<mapsto> autoHackMk2]"

definition gunWith :: "string list \<Rightarrow> slot list \<Rightarrow> game" where
  "gunWith ts slots =
     \<lparr>target = \<lparr>tags = ts, augmentSlots = [''GUN SOFTWARE'', ''GUN SOFTWARE''],
                 augmentSlotItems = slots\<rparr>,
      inventory = (\<lambda>_. 1),
      rejectionWindow = \<lparr>contentsText = [], visible = False\<rparr>\<rparr>"

section \<open>Properties\<close>

subsection \<open>Upper-casing\<close>

lemma of_char_lowered:
  assumes "97 \<le> (of_char c :: nat)" "(of_char c :: nat) \<le> 122"
  shows "(of_char (char_of ((of_char c :: nat) - 32)) :: nat) = of_char c - 32"
proof -
  have "(of_char c :: nat) - 32 < 256" using assms by arith
  then show ?thesis by simp
qed

lemma toUpperChar_other:
  "\<not> (97 \<le> (of_char c :: nat) \<and> (of_char c :: nat) \<le> 122) \<Longrightarrow> toUpperChar c = c"
  by (auto simp: toUpperChar_def Let_def)

lemma toUpperChar_letter:
  assumes "97 \<le> (of_char c :: nat) \<and> (of_char c :: nat) \<le> 122"
  shows "(of_char (toUpperChar c) :: nat) = of_char c - 32"
proof -
  have "toUpperChar c = char_of ((of_char c :: nat) - 32)"
    using assms by (auto simp: toUpperChar_def Let_def)
  moreover have "(of_char c :: nat) - 32 < 256" using assms by arith
  ultimately show ?thesis by simp
qed

lemma toUpperChar_idem: "toUpperChar (toUpperChar c) = toUpperChar c"
proof (cases "97 \<le> (of_char c :: nat) \<and> (of_char c :: nat) \<le> 122")
  case True
  from toUpperChar_letter[OF True] True
  have "\<not> (97 \<le> (of_char (toUpperChar c) :: nat) \<and> (of_char (toUpperChar c) :: nat) \<le> 122)"
    by arith
  then show ?thesis by (rule toUpperChar_other)
next
  case False
  from toUpperChar_other[OF False] show ?thesis by simp
qed

lemma metaChar_code: "metaChar c \<Longrightarrow> (of_char c :: nat) \<notin> {65..90}"
  by (auto simp: metaChar_def)

lemma toUpperChar_plain: "\<not> metaChar c \<Longrightarrow> \<not> metaChar (toUpperChar c)"
proof (cases "97 \<le> (of_char c :: nat) \<and> (of_char c :: nat) \<le> 122")
  case True
  from toUpperChar_letter[OF True] True
  have "(of_char (toUpperChar c) :: nat) \<in> {65..90}" by auto
  then show ?thesis using metaChar_code by blast
next
  case False
  assume "\<not> metaChar c"
  with toUpperChar_other[OF False] show ?thesis by simp
qed

lemma toUpperChar_star: "toUpperChar (CHR ''*'') = CHR ''*''"
  by (simp add: toUpperChar_def)

lemma plain_not_star: "\<not> metaChar c \<Longrightarrow> c \<noteq> CHR ''*'' \<and> c \<noteq> CHR ''$'' \<and> c \<noteq> CHR 0x5C \<and> c \<noteq> CHR ''^''"
  by (auto simp: metaChar_def)

lemma toUpperCase_idem: "toUpperCase (toUpperCase s) = toUpperCase s"
  by (simp add: toUpperCase_def toUpperChar_idem)

subsection \<open>Requirement evaluation\<close>

lemma tagsLoop_eq: "tagsLoop r ts ok = (ok \<or> r \<in> set ts)"
  by (induction ts arbitrary: ok) auto

lemma requirementsLoop_eq: "requirementsLoop rs ts = (\<forall>r\<in>set rs. r \<in> set ts)"
  by (induction rs) (auto simp: tagsLoop_eq)

text \<open>
  Claim C2. The requirement evaluation at install time succeeds if and only if every
  entry of \<^verbatim>\<open>augment.augmentRequirements\<close> is, by exact string equality, an element of
  \<^verbatim>\<open>host.tags\<close>. An empty requirement list always passes, and the evaluation of a list
  is the conjunction of the evaluations of its parts.
\<close>

theorem checkRequirements_exact_membership:
  "(checkRequirements augment item \<longleftrightarrow>
      (\<forall>r\<in>set (augmentRequirements augment). r \<in> set (tags item)))
   \<and> (augmentRequirements augment = [] \<longrightarrow> checkRequirements augment item)
   \<and> (checkRequirements (augment\<lparr>augmentRequirements := rs @ rs'\<rparr>) item \<longleftrightarrow>
        checkRequirements (augment\<lparr>augmentRequirements := rs\<rparr>) item \<and>
        checkRequirements (augment\<lparr>augmentRequirements := rs'\<rparr>) item)"
  by (auto simp: checkRequirements_def requirementsLoop_eq)

theorem checkRequirements_exact_membership_witness:
  "checkRequirements
     \<lparr>item_id = 3, augmentRequirements = [''CANFULLAUTO'', ''SMG''],
      augmentGrantedTags = [''HACKED''], augmentRejectionString = ''Software Rejected!''\<rparr>
     \<lparr>tags = [''SMG'', ''CANFULLAUTO''], augmentSlots = [''GUN SOFTWARE''],
      augmentSlotItems = [SlotNone]\<rparr>
   \<and> \<not> checkRequirements
     \<lparr>item_id = 3, augmentRequirements = [''CANFULLAUTO'', ''SMG''],
      augmentGrantedTags = [''HACKED''], augmentRejectionString = ''Software Rejected!''\<rparr>
     \<lparr>tags = [''CANFULLAUTO''], augmentSlots = [''GUN SOFTWARE''],
      augmentSlotItems = [SlotNone]\<rparr>"
  using checkRequirements_exact_membership
          [of "\<lparr>item_id = 3, augmentRequirements = [''CANFULLAUTO'', ''SMG''],
                augmentGrantedTags = [''HACKED''],
                augmentRejectionString = ''Software Rejected!''\<rparr>"
              "\<lparr>tags = [''SMG'', ''CANFULLAUTO''], augmentSlots = [''GUN SOFTWARE''],
                augmentSlotItems = [SlotNone]\<rparr>"]
        checkRequirements_exact_membership
          [of "\<lparr>item_id = 3, augmentRequirements = [''CANFULLAUTO'', ''SMG''],
                augmentGrantedTags = [''HACKED''],
                augmentRejectionString = ''Software Rejected!''\<rparr>"
              "\<lparr>tags = [''CANFULLAUTO''], augmentSlots = [''GUN SOFTWARE''],
                augmentSlotItems = [SlotNone]\<rparr>"]
  by simp

subsection \<open>A rejected install\<close>

text \<open>
  Claim C3. When the requirement evaluation fails, \<^verbatim>\<open>ItemManager.applyAugmentEffects\<close>
  returns with the host's tags and slot array unchanged and the inventory unchanged, and
  the rejection window shows \<^verbatim>\<open>augment.augmentRejectionString\<close>.
\<close>

theorem applyAugmentEffects_rejected:
  assumes "\<not> checkRequirements augment (target g)"
  shows "\<exists>g'. applyAugmentEffects db g (Some augment) slotId gain = Inr g'
           \<and> tags (target g') = tags (target g)
           \<and> augmentSlotItems (target g') = augmentSlotItems (target g)
           \<and> target g' = target g
           \<and> inventory g' = inventory g
           \<and> rejectionWindow g' =
               \<lparr>contentsText = augmentRejectionString augment, visible = True\<rparr>"
  using assms by (simp add: applyAugmentEffects_def showRejection_def setItem_def)

theorem applyAugmentEffects_rejected_witness:
  "\<exists>g'. applyAugmentEffects Map.empty
            \<lparr>target = \<lparr>tags = [], augmentSlots = [''GUN SOFTWARE''], augmentSlotItems = [SlotNone]\<rparr>,
             inventory = (\<lambda>_. 1),
             rejectionWindow = \<lparr>contentsText = [], visible = False\<rparr>\<rparr>
            (Some \<lparr>item_id = 3, augmentRequirements = [''CANFULLAUTO''],
                   augmentGrantedTags = [''HACKED''],
                   augmentRejectionString = ''Software Rejected!''\<rparr>) 0 (Some 1) = Inr g'
         \<and> tags (target g') = []
         \<and> augmentSlotItems (target g') = [SlotNone]
         \<and> inventory g' = (\<lambda>_. 1)
         \<and> rejectionWindow g' = \<lparr>contentsText = ''Software Rejected!'', visible = True\<rparr>"
proof -
  have h: "\<not> checkRequirements
               \<lparr>item_id = 3, augmentRequirements = [''CANFULLAUTO''],
                augmentGrantedTags = [''HACKED''],
                augmentRejectionString = ''Software Rejected!''\<rparr>
               (target \<lparr>target = \<lparr>tags = [], augmentSlots = [''GUN SOFTWARE''],
                                   augmentSlotItems = [SlotNone]\<rparr>,
                        inventory = (\<lambda>_. 1),
                        rejectionWindow = \<lparr>contentsText = [], visible = False\<rparr>\<rparr>)"
    by (simp add: checkRequirements_def)
  from applyAugmentEffects_rejected[OF h, of Map.empty 0 "Some 1"]
  show ?thesis by auto
qed


text \<open>The script call \<^verbatim>\<open>Kaos.Augment.installAugmentToSlot\<close> wraps the same function and
  then runs line 603 whatever the outcome: after a rejected install the host is unchanged
  as before, and one unit of the augment has left the inventory.\<close>

lemma Kaos_installAugmentToSlot_rejected:
  assumes "\<not> checkRequirements augment (target g)"
  shows "\<exists>g'. Kaos_installAugmentToSlot db g (Some augment) slotId gain = Inr g'
           \<and> target g' = target g
           \<and> inventory g' = (inventory g)(item_id augment := inventory g (item_id augment) - 1)"
  using assms
  by (simp add: Kaos_installAugmentToSlot_def applyAugmentEffects_def showRejection_def
                loseItem_def gainItem_def)

subsection \<open>The indexed lookup\<close>

lemma matchesTag_upper: "matchesTag (toUpperCase tag) c = matchesTag tag c"
  by (simp add: matchesTag_def toUpperCase_idem)

lemma matchesTag_defined:
  assumes "matchesTag tag c = Inr b"
  shows "\<exists>b'. matchesTag tag c' = Inr b'"
  using assms by (auto simp: matchesTag_def split: option.splits)

lemma lookupLoop_upper: "lookupLoop cs t (toUpperCase tag) acc = lookupLoop cs t tag acc"
  by (induction cs arbitrary: t acc)
     (simp_all add: matchesTag_upper toUpperCase_idem split: sum.splits)

lemma lookupLoop_append:
  "lookupLoop (xs @ ys) t tag acc =
     (case lookupLoop xs t tag acc of
        Inl err \<Rightarrow> Inl err
      | Inr acc' \<Rightarrow> lookupLoop ys (t + length xs) tag acc')"
proof (induction xs arbitrary: t acc)
  case Nil
  show ?case by simp
next
  case (Cons x xs)
  show ?case
    by (cases "matchesTag tag x") (simp_all add: lookupLoop_upper Cons.IH cong: sum.case_cong)
qed

lemma lookupLoop_no_match:
  assumes "\<forall>c\<in>set cs. matchesTag tag c = Inr False"
  shows "lookupLoop cs t tag acc = Inr acc"
  using assms by (induction cs arbitrary: t) (simp_all add: lookupLoop_upper)

lemma lookupLoop_defined:
  assumes "\<forall>c\<in>set cs. \<exists>b. matchesTag tag c = Inr b"
  shows "\<exists>acc'. lookupLoop cs t tag acc = Inr acc'"
  using assms
proof (induction cs arbitrary: t acc)
  case Nil
  show ?case by simp
next
  case (Cons x xs)
  then obtain b where "matchesTag tag x = Inr b" by auto
  with Cons show ?case by (simp add: lookupLoop_upper)
qed

lemma lookupLoop_last_match:
  assumes i: "i < length cs"
      and hit: "matchesTag tag (cs ! i) = Inr True"
      and later: "\<forall>j. i < j \<and> j < length cs \<longrightarrow> matchesTag tag (cs ! j) = Inr False"
  shows "lookupLoop cs 0 tag acc = Inr (i, True)"
proof -
  have split: "cs = take i cs @ (cs ! i # drop (Suc i) cs)"
    using i by (simp add: id_take_nth_drop)
  have "\<forall>c\<in>set (take i cs). \<exists>b. matchesTag tag c = Inr b"
    using matchesTag_defined[OF hit] by blast
  then obtain acc' where before: "lookupLoop (take i cs) 0 tag acc = Inr acc'"
    using lookupLoop_defined by blast
  have "\<forall>c\<in>set (drop (Suc i) cs). matchesTag tag c = Inr False"
  proof
    fix c assume "c \<in> set (drop (Suc i) cs)"
    then obtain k where "k < length (drop (Suc i) cs)" "c = drop (Suc i) cs ! k"
      by (auto simp: in_set_conv_nth)
    then have "c = cs ! (Suc i + k)" "Suc i + k < length cs" by auto
    with later show "matchesTag tag c = Inr False" by simp
  qed
  then have after: "lookupLoop (drop (Suc i) cs) (Suc i) tag (i, True) = Inr (i, True)"
    by (rule lookupLoop_no_match)
  have "lookupLoop cs 0 tag acc
          = lookupLoop (take i cs @ (cs ! i # drop (Suc i) cs)) 0 tag acc"
    using split by simp
  also have "\<dots> = lookupLoop (cs ! i # drop (Suc i) cs) i tag acc'"
    using i by (simp add: lookupLoop_append before)
  also have "\<dots> = Inr (i, True)"
    using hit after by (simp add: lookupLoop_upper)
  finally show ?thesis .
qed

lemma lookup_last_match:
  assumes "i < length cs" "matchesTag tag (cs ! i) = Inr True"
      and "\<forall>j. i < j \<and> j < length cs \<longrightarrow> matchesTag tag (cs ! j) = Inr False"
  shows "lookup cs tag True = Inr (Number i)"
  using lookupLoop_last_match[OF assms] by (simp add: lookup_def)

lemma lookup_no_match:
  assumes "\<forall>j<length cs. matchesTag tag (cs ! j) = Inr False"
  shows "lookup cs tag returnIndex = Inr (Boolean False)"
proof -
  have "\<forall>c\<in>set cs. matchesTag tag c = Inr False"
    using assms by (auto simp: in_set_conv_nth)
  then show ?thesis by (simp add: lookup_def lookupLoop_no_match)
qed

lemma last_match_exists:
  assumes "\<exists>k<length cs. matchesTag tag (cs ! k) = Inr True"
  shows "\<exists>i<length cs. matchesTag tag (cs ! i) = Inr True
           \<and> (\<forall>j. i < j \<and> j < length cs \<longrightarrow> matchesTag tag (cs ! j) = Inr False)"
proof -
  let ?S = "{k. k < length cs \<and> matchesTag tag (cs ! k) = Inr True}"
  have fin: "finite ?S" by simp
  have ne: "?S \<noteq> {}" using assms by blast
  let ?i = "Max ?S"
  have mem: "?i \<in> ?S" using Max_in[OF fin ne] .
  have "matchesTag tag (cs ! j) = Inr False" if "?i < j" "j < length cs" for j
  proof -
    have "j \<notin> ?S"
    proof
      assume "j \<in> ?S"
      from Max_ge[OF fin this] that(1) show False by simp
    qed
    with that(2) have "matchesTag tag (cs ! j) \<noteq> Inr True" by simp
    moreover from mem matchesTag_defined obtain b where "matchesTag tag (cs ! j) = Inr b"
      by blast
    ultimately show ?thesis by (cases b) simp_all
  qed
  with mem show ?thesis by blast
qed

text \<open>
  Claim C9. With \<^verbatim>\<open>returnIndex = true\<close>, \<^verbatim>\<open>hasTag\<close> returns the position of the last
  candidate of \<^verbatim>\<open>item.tags\<close> that matches the pattern, not of the first, whenever at
  least one candidate matches: the number returned is a matching position after which
  no position matches.
\<close>

theorem hasTag_index_of_last_match:
  assumes "\<exists>k<length (tags item). matchesTag tag (tags item ! k) = Inr True"
  shows "\<exists>i<length (tags item). hasTag item tag True = Inr (Number i)
           \<and> matchesTag tag (tags item ! i) = Inr True
           \<and> (\<forall>j. i < j \<and> j < length (tags item) \<longrightarrow>
                  matchesTag tag (tags item ! j) = Inr False)"
proof -
  from last_match_exists[OF assms] obtain i where i: "i < length (tags item)"
      "matchesTag tag (tags item ! i) = Inr True"
      "\<forall>j. i < j \<and> j < length (tags item) \<longrightarrow> matchesTag tag (tags item ! j) = Inr False"
    by blast
  then have "hasTag item tag True = Inr (Number i)"
    unfolding hasTag_def by (rule lookup_last_match)
  with i show ?thesis by blast
qed

theorem hasTag_index_of_last_match_witness:
  "hasTag \<lparr>tags = [''ABC'', ''X'', ''ABD'', ''Y''], augmentSlots = [], augmentSlotItems = []\<rparr>
      ''ab*'' True = Inr (Number 2)"
proof -
  let ?item = "\<lparr>tags = [''ABC'', ''X'', ''ABD'', ''Y''], augmentSlots = [], augmentSlotItems = []\<rparr>"
  have first: "matchesTag ''ab*'' (tags ?item ! 0) = Inr True" by code_simp
  have other: "matchesTag ''ab*'' (tags ?item ! 1) = Inr False"
              "matchesTag ''ab*'' (tags ?item ! 3) = Inr False" by code_simp+
  have "\<exists>k<length (tags ?item). matchesTag ''ab*'' (tags ?item ! k) = Inr True"
    using first by (intro exI[of _ 0]) simp
  from hasTag_index_of_last_match[OF this] obtain i where i: "i < length (tags ?item)"
      "hasTag ?item ''ab*'' True = Inr (Number i)"
      "matchesTag ''ab*'' (tags ?item ! i) = Inr True"
      "\<forall>j. i < j \<and> j < length (tags ?item) \<longrightarrow> matchesTag ''ab*'' (tags ?item ! j) = Inr False"
    by blast
  have third: "matchesTag ''ab*'' (tags ?item ! 2) = Inr True" by code_simp
  from i(1) have "i = 0 \<or> i = 1 \<or> i = 2 \<or> i = 3" by auto
  then have "i = 2"
  proof (elim disjE)
    assume "i = 0"
    then have "i < 2 \<and> 2 < length (tags ?item)" by simp
    with i(4) have "matchesTag ''ab*'' (tags ?item ! 2) = Inr False" by blast
    with third show ?thesis by simp
  next
    assume "i = 1"
    with i(3) other(1) show ?thesis by simp
  next
    assume "i = 2" then show ?thesis .
  next
    assume "i = 3"
    with i(3) other(2) show ?thesis by simp
  qed
  with i(2) show ?thesis by simp
qed

text \<open>\<^verbatim>\<open>hasGrant\<close> runs the same loop over \<^verbatim>\<open>item.augmentGrantedTags\<close>.\<close>

lemma hasGrant_index_of_last_match:
  assumes "i < length (augmentGrantedTags item)"
      and "matchesTag grant (augmentGrantedTags item ! i) = Inr True"
      and "\<forall>j. i < j \<and> j < length (augmentGrantedTags item) \<longrightarrow>
                matchesTag grant (augmentGrantedTags item ! j) = Inr False"
  shows "hasGrant item grant True = Inr (Number i)"
  unfolding hasGrant_def using assms by (rule lookup_last_match)

text \<open>
  Claim C10. When the last matching tag sits at position 0, \<^verbatim>\<open>hasTag(item, tag, true)\<close>
  returns the number 0, which is falsy; when no tag matches it returns the boolean
  \<^verbatim>\<open>false\<close>. Both results are falsy, so a test for truthiness does not tell them apart.
\<close>

theorem hasTag_index_zero_is_falsy:
  "(0 < length (tags item) \<and> matchesTag tag (tags item ! 0) = Inr True
      \<and> (\<forall>j. 0 < j \<and> j < length (tags item) \<longrightarrow> matchesTag tag (tags item ! j) = Inr False)
     \<longrightarrow> hasTag item tag True = Inr (Number 0) \<and> \<not> truthy (Number 0))
   \<and> ((\<forall>j<length (tags item). matchesTag tag (tags item ! j) = Inr False)
     \<longrightarrow> hasTag item tag True = Inr (Boolean False) \<and> \<not> truthy (Boolean False))"
  unfolding hasTag_def using lookup_last_match[of 0 "tags item" tag] lookup_no_match[of "tags item" tag True]
  by simp

theorem hasTag_index_zero_is_falsy_witness:
  "hasTag \<lparr>tags = [''RADIOACTIVE'', ''PLANT''], augmentSlots = [], augmentSlotItems = []\<rparr>
      ''radioactive'' True = Inr (Number 0)
   \<and> \<not> truthy (Number 0)
   \<and> hasTag \<lparr>tags = [''PLANT''], augmentSlots = [], augmentSlotItems = []\<rparr>
      ''radioactive'' True = Inr (Boolean False)
   \<and> \<not> truthy (Boolean False)"
proof -
  let ?present = "\<lparr>tags = [''RADIOACTIVE'', ''PLANT''], augmentSlots = [], augmentSlotItems = []\<rparr>"
  let ?absent = "\<lparr>tags = [''PLANT''], augmentSlots = [], augmentSlotItems = []\<rparr>"
  have hit: "matchesTag ''radioactive'' ''RADIOACTIVE'' = Inr True" by code_simp
  have miss: "matchesTag ''radioactive'' ''PLANT'' = Inr False" by code_simp
  have later: "\<forall>j. 0 < j \<and> j < length (tags ?present) \<longrightarrow>
                 matchesTag ''radioactive'' (tags ?present ! j) = Inr False"
  proof (intro allI impI)
    fix j assume "0 < j \<and> j < length (tags ?present)"
    then have "j = 1" by simp
    then show "matchesTag ''radioactive'' (tags ?present ! j) = Inr False"
      using miss by simp
  qed
  have none: "\<forall>j<length (tags ?absent). matchesTag ''radioactive'' (tags ?absent ! j) = Inr False"
    using miss by simp
  from hasTag_index_zero_is_falsy[of ?present "''radioactive''"] hit later
  have first: "hasTag ?present ''radioactive'' True = Inr (Number 0) \<and> \<not> truthy (Number 0)"
    by simp
  from hasTag_index_zero_is_falsy[of ?absent "''radioactive''"] none
  have second: "hasTag ?absent ''radioactive'' True = Inr (Boolean False) \<and> \<not> truthy (Boolean False)"
    by blast
  from first second show ?thesis by blast
qed


subsection \<open>The wildcard in the middle of a pattern\<close>

lemma toUpperCase_append: "toUpperCase (xs @ ys) = toUpperCase xs @ toUpperCase ys"
  by (simp add: toUpperCase_def)

lemma toUpperCase_star: "toUpperCase ''*'' = ''*''"
  by (simp add: toUpperCase_def toUpperChar_star)

lemma toUpperCase_plain:
  "\<forall>c\<in>set s. \<not> metaChar c \<Longrightarrow> \<forall>c\<in>set (toUpperCase s). \<not> metaChar c"
  by (auto simp: toUpperCase_def toUpperChar_plain)

lemma replaceStar_plain:
  assumes "\<forall>c\<in>set xs. \<not> metaChar c"
  shows "replaceStar (xs @ CHR ''*'' # ys) r = xs @ r @ ys"
  using assms by (induction xs) (auto dest: plain_not_star)

lemma parseBody_literals:
  assumes "\<forall>c\<in>set xs. \<not> metaChar c"
  shows "parseBody (xs @ rest) =
           map_option (\<lambda>(as, e). (map Lit xs @ as, e)) (parseBody rest)"
  using assms
proof (induction xs)
  case Nil
  show ?case by (simp add: option.map_ident case_prod_unfold)
next
  case (Cons x xs)
  then have "\<not> metaChar x" by simp
  then have "x \<noteq> CHR ''$''" "x \<noteq> CHR 0x5C" using plain_not_star by blast+
  with Cons \<open>\<not> metaChar x\<close> show ?case
    by (simp add: option.map_comp comp_def case_prod_unfold)
qed

lemma parseBody_word_star:
  "parseBody (backslash_w_star @ rest) =
     map_option (\<lambda>(as, e). (WordStar # as, e)) (parseBody rest)"
  by (simp add: backslash_w_star_def)

lemma matchHere_literals:
  "matchHere (map Lit xs @ as) e s \<longleftrightarrow>
     (\<exists>s1 s2. s = s1 @ s2 \<and> toUpperCase s1 = toUpperCase xs \<and> matchHere as e s2)"
proof (induction xs arbitrary: s)
  case Nil
  show ?case by (simp add: toUpperCase_def)
next
  case (Cons x xs)
  show ?case
  proof (cases s)
    case Nil
    then show ?thesis by (simp add: toUpperCase_def)
  next
    case (Cons y ys)
    show ?thesis
    proof
      assume "matchHere (map Lit (x # xs) @ as) e s"
      with Cons Cons.IH[of ys] obtain s1 s2 where
        "toUpperChar y = toUpperChar x" "ys = s1 @ s2" "toUpperCase s1 = toUpperCase xs"
        "matchHere as e s2" by auto
      then have "s = (y # s1) @ s2 \<and> toUpperCase (y # s1) = toUpperCase (x # xs) \<and> matchHere as e s2"
        using Cons by (simp add: toUpperCase_def)
      then show "\<exists>s1 s2. s = s1 @ s2 \<and> toUpperCase s1 = toUpperCase (x # xs) \<and> matchHere as e s2"
        by blast
    next
      assume "\<exists>s1 s2. s = s1 @ s2 \<and> toUpperCase s1 = toUpperCase (x # xs) \<and> matchHere as e s2"
      then obtain s1 s2 where *: "s = s1 @ s2" "toUpperCase s1 = toUpperCase (x # xs)"
        "matchHere as e s2" by blast
      from *(2) obtain z zs where "s1 = z # zs" "toUpperChar z = toUpperChar x"
        "toUpperCase zs = toUpperCase xs"
        by (cases s1) (auto simp: toUpperCase_def)
      with * Cons Cons.IH[of ys] show "matchHere (map Lit (x # xs) @ as) e s"
        by auto
    qed
  qed
qed

lemma matchHere_word_star:
  "matchHere (WordStar # as) e s \<longleftrightarrow>
     (\<exists>m s2. s = m @ s2 \<and> (\<forall>c\<in>set m. wordChar c) \<and> matchHere as e s2)"
proof (induction s)
  case Nil
  show ?case by simp
next
  case (Cons x xs)
  show ?case
  proof
    assume "matchHere (WordStar # as) e (x # xs)"
    then consider "wordChar x" "matchHere (WordStar # as) e xs" | "matchHere as e (x # xs)"
      by auto
    then show "\<exists>m s2. x # xs = m @ s2 \<and> (\<forall>c\<in>set m. wordChar c) \<and> matchHere as e s2"
    proof cases
      case 1
      with Cons.IH obtain m s2 where "xs = m @ s2" "\<forall>c\<in>set m. wordChar c" "matchHere as e s2"
        by blast
      with 1 have "x # xs = (x # m) @ s2 \<and> (\<forall>c\<in>set (x # m). wordChar c) \<and> matchHere as e s2"
        by simp
      then show ?thesis by blast
    next
      case 2
      then have "x # xs = [] @ (x # xs) \<and> (\<forall>c\<in>set []. wordChar c) \<and> matchHere as e (x # xs)"
        by simp
      then show ?thesis by blast
    qed
  next
    assume "\<exists>m s2. x # xs = m @ s2 \<and> (\<forall>c\<in>set m. wordChar c) \<and> matchHere as e s2"
    then obtain m s2 where *: "x # xs = m @ s2" "\<forall>c\<in>set m. wordChar c" "matchHere as e s2"
      by blast
    show "matchHere (WordStar # as) e (x # xs)"
    proof (cases m)
      case Nil
      with * have "matchHere as e (x # xs)" by simp
      then show ?thesis by simp
    next
      case (Cons z zs)
      with * have "x = z" "xs = zs @ s2" "wordChar z" "\<forall>c\<in>set zs. wordChar c" by auto
      with *(3) Cons.IH show ?thesis by auto
    qed
  qed
qed

lemma matchHere_literals_end:
  "matchHere (map Lit xs) True s \<longleftrightarrow> toUpperCase s = toUpperCase xs"
  using matchHere_literals[of xs "[]" True s] by auto

lemma toUpperCase_length: "length (toUpperCase s) = length s"
  by (simp add: toUpperCase_def)

lemma toUpperCase_fixed_prefix:
  assumes "toUpperCase s = s1 @ s2"
  shows "toUpperCase s1 = s1 \<and> toUpperCase s2 = s2"
proof -
  have "toUpperCase (s1 @ s2) = s1 @ s2"
    using assms toUpperCase_idem[of s] by simp
  then have "toUpperCase s1 @ toUpperCase s2 = s1 @ s2"
    by (simp add: toUpperCase_append)
  then show ?thesis by (simp add: toUpperCase_length)
qed

lemma tagRegex_middle:
  assumes "A \<noteq> []" "B \<noteq> []" "\<forall>c\<in>set (A @ B). \<not> metaChar c"
  shows "tagRegex (A @ ''*'' @ B) = ''^'' @ A @ backslash_w_star @ B @ ''$''"
proof -
  obtain a as where A: "A = a # as" using assms(1) by (cases A) auto
  then have "a \<noteq> CHR ''*''" using assms(3) plain_not_star by auto
  then have first: "\<not> firstIsStar (A @ ''*'' @ B)" by (simp add: firstIsStar_def A)
  obtain b bs where B: "rev B = b # bs" using assms(2) by (cases "rev B") auto
  then have "b \<in> set B" by (metis list.set_intros(1) set_rev)
  then have "b \<noteq> CHR ''*''" using assms(3) plain_not_star by auto
  then have last: "\<not> lastIsStar (A @ ''*'' @ B)" by (simp add: lastIsStar_def B)
  have "replaceStar (A @ ''*'' @ B) backslash_w_star = A @ backslash_w_star @ B"
    using replaceStar_plain[of A B backslash_w_star] assms(3) by simp
  with first last show ?thesis by (simp add: tagRegex_def)
qed

lemma compile_middle:
  assumes "\<forall>c\<in>set (A @ B). \<not> metaChar c"
  shows "compile (''^'' @ A @ backslash_w_star @ B @ ''$'') =
           Some \<lparr>anchoredStart = True, atoms = map Lit A @ WordStar # map Lit B,
                 anchoredEnd = True\<rparr>"
proof -
  have A: "\<forall>c\<in>set A. \<not> metaChar c" and B: "\<forall>c\<in>set B. \<not> metaChar c"
    using assms by auto
  have "parseBody (B @ ''$'') = Some (map Lit B, True)"
    using parseBody_literals[OF B, of "''$''"] by simp
  then have "parseBody (backslash_w_star @ B @ ''$'') = Some (WordStar # map Lit B, True)"
    by (simp add: parseBody_word_star)
  then have "parseBody (A @ backslash_w_star @ B @ ''$'') =
               Some (map Lit A @ WordStar # map Lit B, True)"
    using parseBody_literals[OF A, of "backslash_w_star @ B @ ''$''"] by simp
  then show ?thesis by (simp add: compile_def)
qed

lemma exec_middle:
  "exec \<lparr>anchoredStart = True, atoms = map Lit A @ WordStar # map Lit B, anchoredEnd = True\<rparr> s
     \<longleftrightarrow> (\<exists>s1 m s3. s = s1 @ m @ s3 \<and> toUpperCase s1 = toUpperCase A
            \<and> (\<forall>c\<in>set m. wordChar c) \<and> toUpperCase s3 = toUpperCase B)"
  by (simp add: exec_def matchHere_literals matchHere_word_star matchHere_literals_end) blast

lemma matchesTag_middle:
  assumes "A \<noteq> []" "B \<noteq> []" "\<forall>c\<in>set (A @ B). \<not> metaChar c"
  shows "matchesTag (A @ ''*'' @ B) c =
           Inr (\<exists>m. (\<forall>x\<in>set m. wordChar x) \<and> toUpperCase c = toUpperCase A @ m @ toUpperCase B)"
proof -
  let ?A = "toUpperCase A" and ?B = "toUpperCase B"
  have ne: "?A \<noteq> []" "?B \<noteq> []" using assms(1,2) by (simp_all add: toUpperCase_def)
  have plain: "\<forall>c\<in>set (?A @ ?B). \<not> metaChar c"
    using toUpperCase_plain[OF assms(3)] by (simp add: toUpperCase_append)
  have "toUpperCase (A @ ''*'' @ B) = ?A @ ''*'' @ ?B"
    by (simp add: toUpperCase_def toUpperChar_star)
  then have comp: "compile (tagRegex (toUpperCase (A @ ''*'' @ B))) =
      Some \<lparr>anchoredStart = True, atoms = map Lit ?A @ WordStar # map Lit ?B, anchoredEnd = True\<rparr>"
    using tagRegex_middle[OF ne plain] compile_middle[OF plain] by simp
  have "(\<exists>s1 m s3. toUpperCase c = s1 @ m @ s3 \<and> toUpperCase s1 = toUpperCase ?A
            \<and> (\<forall>x\<in>set m. wordChar x) \<and> toUpperCase s3 = toUpperCase ?B)
        \<longleftrightarrow> (\<exists>m. (\<forall>x\<in>set m. wordChar x) \<and> toUpperCase c = ?A @ m @ ?B)"
  proof
    assume "\<exists>s1 m s3. toUpperCase c = s1 @ m @ s3 \<and> toUpperCase s1 = toUpperCase ?A
            \<and> (\<forall>x\<in>set m. wordChar x) \<and> toUpperCase s3 = toUpperCase ?B"
    then obtain s1 m s3 where *: "toUpperCase c = s1 @ m @ s3" "toUpperCase s1 = ?A"
        "\<forall>x\<in>set m. wordChar x" "toUpperCase s3 = ?B"
      by (auto simp: toUpperCase_idem)
    from toUpperCase_fixed_prefix[OF *(1)] have "toUpperCase s1 = s1" "toUpperCase (m @ s3) = m @ s3"
      by simp_all
    moreover from toUpperCase_fixed_prefix[of "m @ s3" m s3] \<open>toUpperCase (m @ s3) = m @ s3\<close>
    have "toUpperCase s3 = s3" by simp
    ultimately have "s1 = ?A" "s3 = ?B" using * by simp_all
    with * show "\<exists>m. (\<forall>x\<in>set m. wordChar x) \<and> toUpperCase c = ?A @ m @ ?B" by blast
  next
    assume "\<exists>m. (\<forall>x\<in>set m. wordChar x) \<and> toUpperCase c = ?A @ m @ ?B"
    then obtain m where "\<forall>x\<in>set m. wordChar x" "toUpperCase c = ?A @ m @ ?B" by blast
    then have "toUpperCase c = ?A @ m @ ?B \<and> toUpperCase ?A = toUpperCase ?A
                 \<and> (\<forall>x\<in>set m. wordChar x) \<and> toUpperCase ?B = toUpperCase ?B" by simp
    then show "\<exists>s1 m s3. toUpperCase c = s1 @ m @ s3 \<and> toUpperCase s1 = toUpperCase ?A
            \<and> (\<forall>x\<in>set m. wordChar x) \<and> toUpperCase s3 = toUpperCase ?B" by blast
  qed
  with comp show ?thesis by (simp add: matchesTag_def exec_middle)
qed

lemma baseHasReqs_upper: "baseHasReqs (toUpperCase req) cs = baseHasReqs req cs"
  by (cases cs) (auto simp: matchesTag_upper toUpperCase_idem split: sum.splits)

lemma baseHasReqs_any:
  assumes "\<forall>c. matchesTag req c = Inr (P c)"
  shows "baseHasReqs req cs = Inr (\<exists>c\<in>set cs. P c)"
  using assms by (induction cs) (auto simp: baseHasReqs_upper)

lemma lookupLoop_any:
  assumes "\<forall>c. matchesTag tag c = Inr (P c)"
  shows "\<exists>i. lookupLoop cs t tag (k, b) = Inr (i, b \<or> (\<exists>c\<in>set cs. P c))"
  using assms
proof (induction cs arbitrary: t k b)
  case Nil
  show ?case by simp
next
  case (Cons x xs)
  from Cons.IH[OF Cons.prems, of "Suc t" t True] Cons.IH[OF Cons.prems, of "Suc t" k b]
  show ?case using Cons.prems by (auto simp: lookupLoop_upper)
qed

lemma lookup_any:
  assumes "\<forall>c. matchesTag tag c = Inr (P c)"
  shows "lookup cs tag False = Inr (Boolean (\<exists>c\<in>set cs. P c))"
proof -
  from lookupLoop_any[OF assms, of cs 0 0 False]
  obtain i where "lookupLoop cs 0 tag (0, False) = Inr (i, \<exists>c\<in>set cs. P c)" by auto
  then show ?thesis by (simp add: lookup_def)
qed

text \<open>
  Claim C6, as stated: for a pattern \<^verbatim>\<open>"A*B"\<close> the matcher returns true if and only if the
  candidate starts with \<open>A\<close> and ends with \<open>B\<close>, with any characters in between.
  Line 315 replaces the star by \<^verbatim>\<open>\w*\<close>, which a hyphen does not match: the candidate
  below starts with \<open>A\<close> and ends with \<open>B\<close>, and the matcher returns false.
\<close>

theorem baseHasReqs_middle_wildcard_rejects_non_word:
  "baseHasReqs ''A*B'' [''A-B''] = Inr False \<and> prefix ''A'' ''A-B'' \<and> suffix ''B'' ''A-B''"
  by code_simp

text \<open>
  Claim C6, amended: for a pattern \<^verbatim>\<open>"A*B"\<close> whose parts \<open>A\<close> and \<open>B\<close> are not empty
  and hold no metacharacter of regular expressions, the matcher returns true if and
  only if some candidate, upper-cased, is the upper-cased \<open>A\<close>, then any number of word
  characters (letters, digits, underscore; none included), then the upper-cased \<open>B\<close>.
  The same holds for the boolean form of \<^verbatim>\<open>hasTag\<close>.
\<close>

theorem baseHasReqs_middle_wildcard:
  assumes "A \<noteq> []" "B \<noteq> []" "\<forall>c\<in>set (A @ B). \<not> metaChar c"
  shows "baseHasReqs (A @ ''*'' @ B) candidates =
           Inr (\<exists>c\<in>set candidates. \<exists>m. (\<forall>x\<in>set m. wordChar x)
                  \<and> toUpperCase c = toUpperCase A @ m @ toUpperCase B)
       \<and> hasTag item (A @ ''*'' @ B) False =
           Inr (Boolean (\<exists>c\<in>set (tags item). \<exists>m. (\<forall>x\<in>set m. wordChar x)
                  \<and> toUpperCase c = toUpperCase A @ m @ toUpperCase B))"
  using matchesTag_middle[OF assms]
  by (simp add: baseHasReqs_any lookup_any hasTag_def)

theorem baseHasReqs_middle_wildcard_witness:
  "baseHasReqs ''aug*ed'' [''PLANT'', ''Aug_Hacked''] = Inr True
   \<and> hasTag \<lparr>tags = [''PLANT'', ''A-ED''], augmentSlots = [], augmentSlotItems = []\<rparr>
        ''a*ed'' False = Inr (Boolean False)"
proof -
  have plain1: "\<forall>c\<in>set (''aug'' @ ''ed''). \<not> metaChar c" by code_simp
  have plain2: "\<forall>c\<in>set (''a'' @ ''ed''). \<not> metaChar c" by code_simp
  have "(\<forall>x\<in>set ''_HACK''. wordChar x)
          \<and> toUpperCase ''Aug_Hacked'' = toUpperCase ''aug'' @ ''_HACK'' @ toUpperCase ''ed''"
    by code_simp
  then have yes: "\<exists>c\<in>set [''PLANT'', ''Aug_Hacked'']. \<exists>m. (\<forall>x\<in>set m. wordChar x)
                  \<and> toUpperCase c = toUpperCase ''aug'' @ m @ toUpperCase ''ed''"
    by (intro bexI[of _ "''Aug_Hacked''"] exI[of _ "''_HACK''"]) simp_all
  have up: "toUpperCase ''PLANT'' = ''PLANT''" "toUpperCase ''A-ED'' = ''A-ED''"
      "toUpperCase ''a'' = ''A''" "toUpperCase ''ed'' = ''ED''" "\<not> wordChar CHR ''-''"
    by code_simp+
  have no: "\<not> (\<exists>c\<in>set [''PLANT'', ''A-ED'']. \<exists>m. (\<forall>x\<in>set m. wordChar x)
                  \<and> toUpperCase c = toUpperCase ''a'' @ m @ toUpperCase ''ed'')"
  proof
    assume "\<exists>c\<in>set [''PLANT'', ''A-ED'']. \<exists>m. (\<forall>x\<in>set m. wordChar x)
                  \<and> toUpperCase c = toUpperCase ''a'' @ m @ toUpperCase ''ed''"
    then obtain m where m: "\<forall>x\<in>set m. wordChar x" "''A-ED'' = ''A'' @ m @ ''ED''"
      using up by auto
    then have "m = ''-''" by (cases m) auto
    with m(1) up show False by simp
  qed
  from baseHasReqs_middle_wildcard[of "''aug''" "''ed''" "[''PLANT'', ''Aug_Hacked'']", OF _ _ plain1] yes
  have first: "baseHasReqs ''aug*ed'' [''PLANT'', ''Aug_Hacked''] = Inr True" by simp
  from baseHasReqs_middle_wildcard[of "''a''" "''ed''" _ "\<lparr>tags = [''PLANT'', ''A-ED''], augmentSlots = [], augmentSlotItems = []\<rparr>", OF _ _ plain2] no
  have second: "hasTag \<lparr>tags = [''PLANT'', ''A-ED''], augmentSlots = [], augmentSlotItems = []\<rparr>
        ''a*ed'' False = Inr (Boolean False)" by simp
  from first second show ?thesis by blast
qed

subsection \<open>Adding granted tags\<close>

lemma indexOf_absent: "x \<notin> set xs \<Longrightarrow> indexOf xs x = - 1"
  by (induction xs) (auto simp: Let_def)

lemma indexOf_present: "x \<in> set xs \<Longrightarrow> 0 \<le> indexOf xs x"
  by (induction xs) (auto simp: Let_def)

lemma splice1_indexOf: "x \<in> set xs \<Longrightarrow> splice1 xs (nat (indexOf xs x)) = remove1 x xs"
proof (induction xs)
  case Nil
  then show ?case by simp
next
  case (Cons y ys)
  show ?case
  proof (cases "y = x")
    case True
    then show ?thesis by (simp add: splice1_def)
  next
    case False
    with Cons.prems have in_ys: "x \<in> set ys" by simp
    from indexOf_present[OF in_ys] have "nat (indexOf ys x + 1) = Suc (nat (indexOf ys x))"
      by simp
    with False in_ys Cons.IH indexOf_present[OF in_ys] show ?thesis
      by (simp add: splice1_def Let_def)
  qed
qed

lemma removeTag_tags: "tags (removeTag item tag) = remove1 (toUpperCase tag) (tags item)"
proof (cases "toUpperCase tag \<in> set (tags item)")
  case True
  with indexOf_present[OF True] splice1_indexOf[OF True] show ?thesis
    by (simp add: removeTag_def Let_def)
next
  case False
  with indexOf_absent[OF False] show ?thesis
    by (simp add: removeTag_def Let_def remove1_idem)
qed

lemma removeTag_slots:
  "augmentSlotItems (removeTag item tag) = augmentSlotItems item"
  "augmentSlots (removeTag item tag) = augmentSlots item"
  by (simp_all add: removeTag_def Let_def)

lemma addTag_tags:
  "tags (addTag item tag) = remove1 (toUpperCase tag) (tags item) @ [toUpperCase tag]"
  by (simp add: addTag_def Let_def removeTag_tags toUpperCase_idem)

lemma addTag_slots:
  "augmentSlotItems (addTag item tag) = augmentSlotItems item"
  "augmentSlots (addTag item tag) = augmentSlots item"
  by (simp_all add: addTag_def Let_def removeTag_slots)

lemma set_remove1_insert: "insert x (set (remove1 x xs)) = insert x (set xs)"
  by (induction xs) auto

lemma addGrantedTagsLoop_set:
  "set (tags (addGrantedTagsLoop gs item)) = set (tags item) \<union> namespaced ` set gs"
proof (induction gs arbitrary: item)
  case Nil
  show ?case by simp
next
  case (Cons g gs)
  have "set (tags (addTag item (''aug_'' @ g))) = insert (namespaced g) (set (tags item))"
    by (simp add: addTag_tags namespaced_def set_remove1_insert)
  then show ?case by (simp add: Cons.IH)
qed

lemma addGrantedTagsLoop_slots:
  "augmentSlotItems (addGrantedTagsLoop gs item) = augmentSlotItems item"
  "augmentSlots (addGrantedTagsLoop gs item) = augmentSlots item"
  by (induction gs arbitrary: item) (simp_all add: addTag_slots)

lemma addTag_count:
  "count_list (tags (addTag item tag)) t =
     (if t = toUpperCase tag then max 1 (count_list (tags item) t) else count_list (tags item) t)"
proof -
  have "\<And>x xs. count_list (remove1 x xs) t = (if t = x then count_list xs t - 1 else count_list xs t)"
  proof -
    fix x :: string and xs
    show "count_list (remove1 x xs) t = (if t = x then count_list xs t - 1 else count_list xs t)"
      by (induction xs) auto
  qed
  then show ?thesis by (auto simp: addTag_tags)
qed

lemma install_into_empty_slot:
  assumes "checkRequirements augment (target g)" "slotIsNone (target g) slotId"
  shows "\<exists>g'. applyAugmentEffects db g (Some augment) slotId gain = Inr g'
           \<and> set (tags (target g')) =
               set (tags (target g)) \<union> namespaced ` set (augmentGrantedTags augment)
           \<and> augmentSlotItems (target g') =
               (augmentSlotItems (target g))[slotId := SlotItem (item_id augment)]
           \<and> rejectionWindow g' = rejectionWindow g"
  using assms
  by (simp add: applyAugmentEffects_def installBlock_def slotIsNone_def addGrantedTags_def
                addGrantedTagsLoop_slots addGrantedTagsLoop_set
                ItemManager_installAugmentToSlot_def)

text \<open>Scenario A of the specification: the slot is empty, the requirement is met, the
  granted tag is added and the slot is occupied.\<close>

lemma scenario_A:
  "map_sum id target
     (applyAugmentEffects exampleItems (gunWith [''CANFULLAUTO''] [SlotNone, SlotNone])
        (Some autoHack) 0 (Some 1))
   = Inr \<lparr>tags = [''CANFULLAUTO'', ''AUG_HACKED''],
          augmentSlots = [''GUN SOFTWARE'', ''GUN SOFTWARE''],
          augmentSlotItems = [SlotItem 3, SlotNone]\<rparr>"
  by code_simp

text \<open>
  Claim C5: a successful install adds the namespaced form of every granted tag to
  \<^verbatim>\<open>host.tags\<close> and sets the slot to \<open>Occupied\<close>. That holds for an empty slot
  (\<open>install_into_empty_slot\<close>). For an occupied slot the code breaks it: line 386 adds the
  tags before line 394 removes the displaced occupant, whose \<^verbatim>\<open>removeGrantedTags\<close> takes
  the tag away again. Below the requirement is met, the slot holds item 3 and item 4 is
  installed; both grant \<^verbatim>\<open>HACKED\<close>, and the host ends without \<^verbatim>\<open>AUG_HACKED\<close>.
\<close>

theorem swap_install_strips_granted_tag:
  "checkRequirements autoHackMk2
       (target (gunWith [''CANFULLAUTO'', ''AUG_HACKED''] [SlotItem 3, SlotNone]))
   \<and> map_sum id target
     (applyAugmentEffects exampleItems
        (gunWith [''CANFULLAUTO'', ''AUG_HACKED''] [SlotItem 3, SlotNone])
        (Some autoHackMk2) 0 (Some 1))
   = Inr \<lparr>tags = [''CANFULLAUTO''],
          augmentSlots = [''GUN SOFTWARE'', ''GUN SOFTWARE''],
          augmentSlotItems = [SlotItem 4, SlotNone]\<rparr>"
  by code_simp

subsection \<open>Letter case: exact comparison, upper-cased storage\<close>








subsection \<open>Removing granted tags\<close>

text \<open>
  Claim C1: after any sequence of installs and removals a namespaced granted tag is on
  the host if and only if an installed augment grants it. The code breaks it: the flag
  \<^verbatim>\<open>removeTag\<close> of line 565 is never set back to true, so once another occupant grants
  one tag of the departing augment, none of its later tags is removed. Below item 1
  grants \<^verbatim>\<open>ILLEGALUFM\<close> and \<^verbatim>\<open>HACKED\<close>, item 2 grants \<^verbatim>\<open>ILLEGALUFM\<close>; after item 1 is
  removed the host still carries \<^verbatim>\<open>AUG_HACKED\<close>, which no occupant grants.
\<close>

theorem granted_tag_outlives_its_grantors:
  "map_sum id (\<lambda>g. (target g, installedGrants exampleItems (target g)))
     (run exampleItems (gunWith [''CANFULLAUTO''] [SlotNone, SlotNone])
        [Install ufmHack 0, Install ufmChip 1, Remove 0])
   = Inr (\<lparr>tags = [''CANFULLAUTO'', ''AUG_HACKED'', ''AUG_ILLEGALUFM''],
           augmentSlots = [''GUN SOFTWARE'', ''GUN SOFTWARE''],
           augmentSlotItems = [SlotNone, SlotItem 2]\<rparr>,
          [''AUG_ILLEGALUFM''])"
  by code_simp

text \<open>
  Claim C4: installing into an empty slot and removing at once restores \<^verbatim>\<open>host.tags\<close>.
  The code breaks it by the same flag: the host below carries \<^verbatim>\<open>AUG_ILLEGALUFM\<close> from
  item 2 in its second slot; item 1 is installed into the empty first slot and removed,
  and \<^verbatim>\<open>AUG_HACKED\<close> stays behind.
\<close>

theorem install_then_remove_leaves_extra_tag:
  "map_sum id target
     (run exampleItems (gunWith [''CANFULLAUTO'', ''AUG_ILLEGALUFM''] [SlotNone, SlotItem 2])
        [Install ufmHack 0, Remove 0])
   = Inr \<lparr>tags = [''CANFULLAUTO'', ''AUG_ILLEGALUFM'', ''AUG_HACKED''],
          augmentSlots = [''GUN SOFTWARE'', ''GUN SOFTWARE''],
          augmentSlotItems = [SlotNone, SlotItem 2]\<rparr>"
  by code_simp

text \<open>Scenario C of the specification, with two different items that grant the same tag:
  the tag stays while one of them is installed and goes with the second.\<close>

lemma scenario_C:
  "map_sum id (tags \<circ> target)
     (run exampleItems
        (gunWith [''CANFULLAUTO'', ''AUG_HACKED''] [SlotItem 3, SlotItem 4]) [Remove 0])
     = Inr [''CANFULLAUTO'', ''AUG_HACKED'']
   \<and> map_sum id (tags \<circ> target)
     (run exampleItems
        (gunWith [''CANFULLAUTO'', ''AUG_HACKED''] [SlotItem 3, SlotItem 4]) [Remove 0, Remove 1])
     = Inr [''CANFULLAUTO'']"
  by code_simp

text \<open>Line 570 tells the other occupants from the departing one by item identifier, so
  with the same item in both slots the tag goes with the first removal.\<close>

lemma scenario_C_same_item:
  "map_sum id target
     (run exampleItems
        (gunWith [''CANFULLAUTO'', ''AUG_HACKED''] [SlotItem 3, SlotItem 3]) [Remove 0])
     = Inr \<lparr>tags = [''CANFULLAUTO''],
            augmentSlots = [''GUN SOFTWARE'', ''GUN SOFTWARE''],
            augmentSlotItems = [SlotNone, SlotItem 3]\<rparr>"
  by code_simp

subsection \<open>Removing from an empty slot\<close>

text \<open>
  Claim C8: removing from an empty slot is a no-op and raises no error. The code breaks
  it: \<^verbatim>\<open>Kaos.Augment.removeAugmentFromSlot\<close> hands the \<^verbatim>\<open>null\<close> occupant to
  \<^verbatim>\<open>removeGrantedTags\<close>, whose line 566 reads \<^verbatim>\<open>augment.augmentGrantedTags\<close>.
\<close>

theorem Kaos_removeAugmentFromSlot_empty_slot_throws:
  assumes "slotIsNone (target g) slotId"
  shows "Kaos_removeAugmentFromSlot db g slotId gain = Inl TypeError"
  using assms
  by (simp add: Kaos_removeAugmentFromSlot_def augmentInSlot_def removeGrantedTags_def
                slotIsNone_def)

theorem Kaos_removeAugmentFromSlot_empty_slot_throws_witness:
  "Kaos_removeAugmentFromSlot exampleItems (gunWith [''CANFULLAUTO''] [SlotNone, SlotNone]) 0 None
     = Inl TypeError"
proof -
  have "slotIsNone (target (gunWith [''CANFULLAUTO''] [SlotNone, SlotNone])) 0"
    by (simp add: slotIsNone_def gunWith_def)
  then show ?thesis by (rule Kaos_removeAugmentFromSlot_empty_slot_throws)
qed

text \<open>The override of \<^verbatim>\<open>ItemManager.removeAugmentFromSlot\<close> throws in the same way, before
  it reaches its own test \<^verbatim>\<open>if (!augment)\<close>. \<^verbatim>\<open>ItemManager.applyAugmentEffects\<close> guards the
  call with \<^verbatim>\<open>!== 'none'\<close>: clearing an empty slot through it changes neither the host nor
  the inventory, and shows the rejection window with an empty text.\<close>

lemma ItemManager_removeAugmentFromSlot_empty:
  assumes "slotIsNone item slotId"
  shows "ItemManager_removeAugmentFromSlot db item slotId = Inl TypeError"
  using assms
  by (simp add: ItemManager_removeAugmentFromSlot_def augmentInSlot_def removeGrantedTags_def
                slotIsNone_def)

lemma applyAugmentEffects_clear_empty:
  assumes "slotIsNone (target g) slotId"
  shows "applyAugmentEffects db g None slotId gain = Inr (showRejection g None)"
proof -
  have "(augmentSlotItems (target g))[slotId := SlotNone] = augmentSlotItems (target g)"
    using assms list_update_id[of "augmentSlotItems (target g)" slotId]
    by (simp add: slotIsNone_def)
  then show ?thesis
    using assms
    by (simp add: applyAugmentEffects_def installBlock_def ItemManager_installAugmentToSlot_def
                  loseItem_def gainItem_def showRejection_def)
qed

end
